theory Spec2Isabelle
  imports Main "HOL-Library.Multiset" "HOL-Library.Product_Lexorder"
begin

section \<open>Timestamps\<close>

text \<open>
  Both front ends stamp notes with \<^verbatim>\<open>datetime.datetime.now()\<close>, a naive
  \<^verbatim>\<open>datetime\<close> object: seven calendar fields and no time zone. Python compares two
  naive datetimes field by field, most significant first.
\<close>

record datetime =
  dt_year :: nat
  dt_month :: nat
  dt_day :: nat
  dt_hour :: nat
  dt_minute :: nat
  dt_second :: nat
  dt_microsecond :: nat

definition dt_key :: "datetime \<Rightarrow> nat \<times> nat \<times> nat \<times> nat \<times> nat \<times> nat \<times> nat" where
  "dt_key d = (dt_year d, dt_month d, dt_day d, dt_hour d, dt_minute d, dt_second d,
               dt_microsecond d)"

definition dt_le :: "datetime \<Rightarrow> datetime \<Rightarrow> bool" where
  "dt_le a b = (dt_key a \<le> dt_key b)"

section \<open>The relational model of \<^verbatim>\<open>src/models/note.py\<close>\<close>

text \<open>
  The SQLAlchemy classes \<^verbatim>\<open>Note\<close>, \<^verbatim>\<open>Tag\<close> and \<^verbatim>\<open>Category\<close> are rows of three
  tables, and \<^verbatim>\<open>note_tag\<close> is the association table of the many-to-many relationship.
  A nullable column is an \<open>option\<close>. The columns \<^verbatim>\<open>is_pinned\<close>, \<^verbatim>\<open>created_date\<close> and
  \<^verbatim>\<open>modified_date\<close> carry a Python-side default and no method of the module ever writes
  \<^verbatim>\<open>None\<close> to them, so they are modelled without \<open>None\<close>. The column \<^verbatim>\<open>id\<close> is
  named \<open>note_id\<close> here.
\<close>

record note_row =
  note_id :: string
  title :: "string option"
  content :: "string option"
  plain_content :: "string option"
  created_date :: datetime
  modified_date :: datetime
  color :: "string option"
  is_pinned :: bool
  category_id :: "string option"

record tag_row =
  tag_id :: string
  tag_name :: string
  tag_color :: "string option"
  tag_created_date :: datetime

record category_row =
  cat_id :: string
  cat_name :: string
  cat_color :: "string option"
  cat_created_date :: datetime

record database =
  notes_tbl :: "note_row list"
  tags_tbl :: "tag_row list"
  categories_tbl :: "category_row list"
  note_tag_tbl :: "(string \<times> string) list"

subsection \<open>Ordering: \<^verbatim>\<open>order_by(cls.is_pinned.desc(), cls.modified_date.desc())\<close>\<close>

text \<open>
  \<open>precedes a b\<close> says that row \<open>a\<close> may stand before row \<open>b\<close> in the result:
  \<open>a\<close> is pinned and \<open>b\<close> is not, or both have the same flag and \<open>a\<close> was modified no
  earlier than \<open>b\<close>. SQL leaves the order of rows with equal keys open; the model keeps
  them in table order (a stable insertion sort).
\<close>

definition precedes :: "note_row \<Rightarrow> note_row \<Rightarrow> bool" where
  "precedes a b =
     ((is_pinned a \<and> \<not> is_pinned b) \<or>
      (is_pinned a = is_pinned b \<and> dt_le (modified_date b) (modified_date a)))"

fun insert_row :: "note_row \<Rightarrow> note_row list \<Rightarrow> note_row list" where
  "insert_row x [] = [x]"
| "insert_row x (y # ys) = (if precedes x y then x # y # ys else y # insert_row x ys)"

definition order_by_pinned_modified :: "note_row list \<Rightarrow> note_row list" where
  "order_by_pinned_modified xs = foldr insert_row xs []"

definition get_all :: "database \<Rightarrow> note_row list" where
  "get_all db = order_by_pinned_modified (notes_tbl db)"

subsection \<open>Text search: \<^verbatim>\<open>Note.search\<close>\<close>

text \<open>
  \<^verbatim>\<open>query_text.split()\<close> cuts the text at runs of white space and drops empty pieces.
  Characters are taken as code points below 256; \<open>is_space\<close> lists those for which
  \<^verbatim>\<open>str.isspace()\<close> holds.
\<close>

definition is_space :: "char \<Rightarrow> bool" where
  "is_space c = (of_char c \<in> {9, 10, 11, 12, 13, 28, 29, 30, 31, 32, 133, 160 :: nat})"

fun split_from :: "string \<Rightarrow> string \<Rightarrow> string list" where
  "split_from cur [] = (if cur = [] then [] else [cur])"
| "split_from cur (c # cs) =
     (if is_space c then (if cur = [] then split_from [] cs else cur # split_from [] cs)
      else split_from (cur @ [c]) cs)"

definition str_split :: "string \<Rightarrow> string list" where
  "str_split s = split_from [] s"

text \<open>
  \<^verbatim>\<open>column.ilike(pattern)\<close> is SQL \<^verbatim>\<open>lower(column) LIKE lower(pattern)\<close>. In a LIKE
  pattern \<^verbatim>\<open>%\<close> stands for any run of characters and \<^verbatim>\<open>_\<close> for any one character;
  SQLite has no escape character unless one is declared, and the source declares none.
  SQLite's \<^verbatim>\<open>lower\<close> folds the ASCII letters only.
\<close>

definition lower_char :: "char \<Rightarrow> char" where
  "lower_char c = (if 65 \<le> (of_char c :: nat) \<and> (of_char c :: nat) \<le> 90
                   then char_of (of_char c + (32 :: nat)) else c)"

definition lower :: "string \<Rightarrow> string" where
  "lower s = map lower_char s"

fun like :: "string \<Rightarrow> string \<Rightarrow> bool" where
  "like [] s = (s = [])"
| "like (p # ps) [] = (p = CHR ''%'' \<and> like ps [])"
| "like (p # ps) (c # cs) =
     (if p = CHR ''%'' then like ps (c # cs) \<or> like (p # ps) cs
      else if p = CHR ''_'' then like ps cs
      else p = c \<and> like ps cs)"

text \<open>
  A \<^verbatim>\<open>NULL\<close> column makes the comparison \<^verbatim>\<open>NULL\<close>; under \<^verbatim>\<open>or_\<close>, \<^verbatim>\<open>and_\<close> and
  \<^verbatim>\<open>filter\<close> (no negation is applied) that row is kept exactly when the other
  disjunct is true, so \<^verbatim>\<open>NULL\<close> is read as no match.
\<close>

definition ilike :: "string option \<Rightarrow> string \<Rightarrow> bool" where
  "ilike col pattern = (case col of None \<Rightarrow> False | Some s \<Rightarrow> like (lower pattern) (lower s))"

definition search_terms :: "string \<Rightarrow> string list" where
  "search_terms query_text = map (\<lambda>term. ''%'' @ term @ ''%'') (str_split query_text)"

definition matches_text :: "string \<Rightarrow> note_row \<Rightarrow> bool" where
  "matches_text query_text n =
     list_all (\<lambda>term. ilike (title n) term \<or> ilike (plain_content n) term)
       (search_terms query_text)"

text \<open>\<^verbatim>\<open>cls.tags.any(Tag.id == tag_id)\<close>: an association row links the note to a tag
  row with that id.\<close>

definition has_tag :: "database \<Rightarrow> string \<Rightarrow> note_row \<Rightarrow> bool" where
  "has_tag db tid n =
     list_ex (\<lambda>(nid, tg). nid = note_id n \<and> tg = tid \<and> list_ex (\<lambda>t. tag_id t = tid) (tags_tbl db))
       (note_tag_tbl db)"

definition search ::
  "database \<Rightarrow> string \<Rightarrow> string option \<Rightarrow> string list option \<Rightarrow> bool \<Rightarrow> note_row list" where
  "search db query_text cid tag_ids pinned_only =
     (let q0 = notes_tbl db;
          q1 = (if query_text \<noteq> [] then filter (matches_text query_text) q0 else q0);
          q2 = (case cid of
                  None \<Rightarrow> q1
                | Some c \<Rightarrow> if c \<noteq> [] then filter (\<lambda>n. category_id n = Some c) q1 else q1);
          q3 = (case tag_ids of
                  None \<Rightarrow> q2
                | Some ts \<Rightarrow> fold (\<lambda>tid q. filter (has_tag db tid) q) ts q2);
          q4 = (if pinned_only then filter is_pinned q3 else q3)
      in order_by_pinned_modified q4)"

text \<open>
  What the specification asks of the search, in its own words, to compare the query
  with: \<open>occurs_in w s\<close> says that \<open>w\<close> is a substring of \<open>s\<close>,
  \<open>word_in_note\<close> that a word occurs, case-insensitively, in the title or in the plain
  content, and \<open>spec_matches\<close> that every word does and that the category, tag and
  pinned filters hold. A word is \<open>wildcard_free\<close> when it has no \<^verbatim>\<open>%\<close> and no
  \<^verbatim>\<open>_\<close>.
\<close>

fun occurs_in :: "string \<Rightarrow> string \<Rightarrow> bool" where
  "occurs_in w [] = (w = [])"
| "occurs_in w (c # cs) = (take (length w) (c # cs) = w \<or> occurs_in w cs)"

definition word_in_note :: "string \<Rightarrow> note_row \<Rightarrow> bool" where
  "word_in_note w n =
     ((case title n of None \<Rightarrow> False | Some s \<Rightarrow> occurs_in (lower w) (lower s)) \<or>
      (case plain_content n of None \<Rightarrow> False | Some s \<Rightarrow> occurs_in (lower w) (lower s)))"

definition spec_matches ::
  "database \<Rightarrow> string \<Rightarrow> string option \<Rightarrow> string list option \<Rightarrow> bool \<Rightarrow> note_row \<Rightarrow> bool" where
  "spec_matches db query_text cid tag_ids pinned_only n =
     (list_all (\<lambda>w. word_in_note w n) (str_split query_text) \<and>
      (case cid of None \<Rightarrow> True | Some c \<Rightarrow> c = [] \<or> category_id n = Some c) \<and>
      (case tag_ids of None \<Rightarrow> True | Some ts \<Rightarrow> list_all (\<lambda>t. has_tag db t n) ts) \<and>
      (if pinned_only then is_pinned n else True))"

definition wildcard_free :: "string \<Rightarrow> bool" where
  "wildcard_free w = (CHR ''%'' \<notin> set w \<and> CHR ''_'' \<notin> set w)"

subsection \<open>Mutations: \<^verbatim>\<open>Note.update\<close>, \<^verbatim>\<open>Note.toggle_pin\<close>, \<^verbatim>\<open>Note.delete_by_id\<close>\<close>

text \<open>
  Each method runs one session block over the tables. A method returns the tables after
  the call together with its outcome: \<open>Inl\<close> an exception that leaves the method,
  \<open>Inr\<close> the value returned. When an exception leaves the block, \<^verbatim>\<open>db_session\<close>
  rolls the session back, so the tables are the ones before the call. The clock reading
  \<open>now\<close> is what \<^verbatim>\<open>datetime.datetime.now()\<close> returns during the call, and \<open>uuid4\<close>
  supplies the identifiers that \<^verbatim>\<open>uuid.uuid4()\<close> draws.
\<close>

datatype error = ValueError string | IndexError | AttributeError | TypeError








subsection \<open>Aggregates: \<^verbatim>\<open>count_by_category\<close>, \<^verbatim>\<open>count_by_tag\<close>\<close>

text \<open>
  \<^verbatim>\<open>GROUP BY\<close> yields one result row per distinct key with the number of rows that
  carry it. A dict comprehension lets a later pair replace an earlier one with the same
  key.
\<close>

definition group_count :: "'k list \<Rightarrow> ('k \<times> nat) list" where
  "group_count ks = map (\<lambda>k. (k, count_list ks k)) (remdups ks)"

definition dict_of :: "('k \<times> 'v) list \<Rightarrow> ('k \<rightharpoonup> 'v)" where
  "dict_of rs = map_of (rev rs)"

definition category_key :: "string option \<Rightarrow> string" where
  "category_key c = (case c of None \<Rightarrow> ''uncategorized''
                     | Some s \<Rightarrow> if s = [] then ''uncategorized'' else s)"

definition count_by_category :: "database \<Rightarrow> (string \<rightharpoonup> nat)" where
  "count_by_category db =
     dict_of (map (\<lambda>(c, k). (category_key c, k)) (group_count (map category_id (notes_tbl db))))"

text \<open>The join of \<^verbatim>\<open>tags\<close> with \<^verbatim>\<open>note_tag\<close> on the tag id: one row per pair of a
  tag row and an association row that names it.\<close>

definition tag_join :: "database \<Rightarrow> string list" where
  "tag_join db =
     concat (map (\<lambda>t. map (\<lambda>_. tag_id t) (filter (\<lambda>(nid, tg). tg = tag_id t) (note_tag_tbl db)))
                 (tags_tbl db))"

definition count_by_tag :: "database \<Rightarrow> (string \<rightharpoonup> nat)" where
  "count_by_tag db = dict_of (group_count (tag_join db))"

text \<open>
  What the schema enforces: \<^verbatim>\<open>id\<close> is the primary key of \<^verbatim>\<open>notes\<close> and of
  \<^verbatim>\<open>tags\<close>, the pair of columns is the primary key of \<^verbatim>\<open>note_tag\<close>, and each of
  its columns is a foreign key. \<open>notes_with_tag\<close> lists the notes that reference a
  tag, \<open>uncategorized_notes\<close> those without a category.
\<close>

definition schema_ok :: "database \<Rightarrow> bool" where
  "schema_ok db =
     (distinct (map note_id (notes_tbl db)) \<and> distinct (map tag_id (tags_tbl db)) \<and>
      distinct (note_tag_tbl db) \<and>
      list_all (\<lambda>(nid, tg). nid \<in> note_id ` set (notes_tbl db) \<and> tg \<in> tag_id ` set (tags_tbl db))
        (note_tag_tbl db))"

definition notes_with_tag :: "database \<Rightarrow> string \<Rightarrow> note_row list" where
  "notes_with_tag db tg = filter (\<lambda>n. (note_id n, tg) \<in> set (note_tag_tbl db)) (notes_tbl db)"

definition uncategorized_notes :: "database \<Rightarrow> note_row list" where
  "uncategorized_notes db = filter (\<lambda>n. category_id n = None) (notes_tbl db)"

section \<open>The file-backed model of \<^verbatim>\<open>modern_colornote.py\<close>\<close>

subsection \<open>Textual timestamps: \<^verbatim>\<open>isoformat\<close> and \<^verbatim>\<open>fromisoformat\<close>\<close>

text \<open>
  A \<^verbatim>\<open>datetime\<close> object always holds a calendar date and a time of day in range.
\<close>

definition is_leap :: "nat \<Rightarrow> bool" where
  "is_leap y = (y mod 4 = 0 \<and> (y mod 100 \<noteq> 0 \<or> y mod 400 = 0))"

definition days_in_month :: "nat \<Rightarrow> nat \<Rightarrow> nat" where
  "days_in_month y m =
     (if m = 2 then (if is_leap y then 29 else 28)
      else if m = 4 \<or> m = 6 \<or> m = 9 \<or> m = 11 then 30 else 31)"

definition valid_datetime :: "datetime \<Rightarrow> bool" where
  "valid_datetime d =
     (1 \<le> dt_year d \<and> dt_year d \<le> 9999 \<and> 1 \<le> dt_month d \<and> dt_month d \<le> 12 \<and>
      1 \<le> dt_day d \<and> dt_day d \<le> days_in_month (dt_year d) (dt_month d) \<and>
      dt_hour d < 24 \<and> dt_minute d < 60 \<and> dt_second d < 60 \<and> dt_microsecond d < 1000000)"

text \<open>\<open>pad w k\<close> is \<^verbatim>\<open>"%0wd" % k\<close> for a number of at most \<open>w\<close> digits.\<close>

definition digit_char :: "nat \<Rightarrow> char" where
  "digit_char d = char_of (48 + d)"

fun pad :: "nat \<Rightarrow> nat \<Rightarrow> string" where
  "pad 0 k = []"
| "pad (Suc w) k = pad w (k div 10) @ [digit_char (k mod 10)]"

definition isoformat :: "datetime \<Rightarrow> string" where
  "isoformat d =
     pad 4 (dt_year d) @ ''-'' @ pad 2 (dt_month d) @ ''-'' @ pad 2 (dt_day d) @ ''T'' @
     pad 2 (dt_hour d) @ '':'' @ pad 2 (dt_minute d) @ '':'' @ pad 2 (dt_second d) @
     (if dt_microsecond d = 0 then [] else ''.'' @ pad 6 (dt_microsecond d))"

text \<open>
  \<^verbatim>\<open>datetime.fromisoformat\<close> for naive values, after the reference implementation of
  Python 3.7 to 3.10: \<^verbatim>\<open>YYYY-MM-DD\<close>, then optionally any one separator character and
  \<^verbatim>\<open>HH[:MM[:SS[.fff[fff]]]]\<close>. A string with a UTC offset denotes an aware datetime,
  which the record above does not represent; such a string is rejected here.
\<close>

definition digit_val :: "char \<Rightarrow> nat option" where
  "digit_val c = (if 48 \<le> (of_char c :: nat) \<and> (of_char c :: nat) \<le> 57
                  then Some (of_char c - 48) else None)"

fun parse_digits :: "nat \<Rightarrow> string \<Rightarrow> nat option" where
  "parse_digits acc [] = Some acc"
| "parse_digits acc (c # cs) =
     (case digit_val c of None \<Rightarrow> None | Some d \<Rightarrow> parse_digits (10 * acc + d) cs)"

definition parse_int :: "string \<Rightarrow> nat option" where
  "parse_int s = (if s = [] then None else parse_digits 0 s)"

definition parse_isoformat_date :: "string \<Rightarrow> (nat \<times> nat \<times> nat) option" where
  "parse_isoformat_date s =
     (if length s = 10 \<and> s ! 4 = CHR ''-'' \<and> s ! 7 = CHR ''-'' then
        (case (parse_int (take 4 s), parse_int (take 2 (drop 5 s)), parse_int (drop 8 s)) of
           (Some y, Some m, Some d) \<Rightarrow> Some (y, m, d)
         | _ \<Rightarrow> None)
      else None)"

definition parse_hh_mm_ss_ff :: "string \<Rightarrow> (nat \<times> nat \<times> nat \<times> nat) option" where
  "parse_hh_mm_ss_ff t =
     (let n = length t;
          hh = parse_int (take 2 t);
          mm = (if n = 2 then Some 0 else parse_int (take 2 (drop 3 t)));
          ss = (if n \<le> 5 then Some 0 else parse_int (take 2 (drop 6 t)));
          ff = (if n \<le> 8 then Some 0
                else if n = 12 then map_option (\<lambda>k. k * 1000) (parse_int (drop 9 t))
                else parse_int (drop 9 t));
          seps = ((n = 2 \<or> t ! 2 = CHR '':'') \<and> (n \<le> 5 \<or> t ! 5 = CHR '':'') \<and>
                  (n \<le> 8 \<or> t ! 8 = CHR ''.''))
      in if n \<in> {2, 5, 8, 12, 15} \<and> seps then
           (case (hh, mm, ss, ff) of
              (Some h, Some m, Some s, Some f) \<Rightarrow> Some (h, m, s, f)
            | _ \<Rightarrow> None)
         else None)"

definition fromisoformat :: "string \<Rightarrow> error + datetime" where
  "fromisoformat s =
     (case parse_isoformat_date (take 10 s) of
        None \<Rightarrow> Inl (ValueError (''Invalid isoformat string: '' @ s))
      | Some (y, m, d) \<Rightarrow>
          (case (if length s \<le> 11 then Some (0, 0, 0, 0) else parse_hh_mm_ss_ff (drop 11 s)) of
             None \<Rightarrow> Inl (ValueError (''Invalid isoformat string: '' @ s))
           | Some (h, mi, se, us) \<Rightarrow>
               (let dt = \<lparr>dt_year = y, dt_month = m, dt_day = d, dt_hour = h, dt_minute = mi,
                           dt_second = se, dt_microsecond = us\<rparr>
                in if valid_datetime dt then Inr dt
                   else Inl (ValueError (''Invalid isoformat string: '' @ s)))))"

subsection \<open>Notes and their dictionaries\<close>

text \<open>
  Python attributes are untyped and \<^verbatim>\<open>from_dict\<close> stores whatever the document
  holds, so the attributes of a note are JSON values; the two dates are \<^verbatim>\<open>datetime\<close>
  objects. A dict is an association list with distinct keys.
\<close>

datatype json = JNull | JBool bool | JNum int | JStr string | JList "json list"
  | JObj "(string \<times> json) list"

record mnote =
  m_title :: json
  m_content :: json
  m_is_code :: json
  m_tags :: json
  m_category :: json
  m_created_date :: datetime
  m_modified_date :: datetime

fun py_truthy :: "json \<Rightarrow> bool" where
  "py_truthy JNull = False"
| "py_truthy (JBool b) = b"
| "py_truthy (JNum k) = (k \<noteq> 0)"
| "py_truthy (JStr s) = (s \<noteq> [])"
| "py_truthy (JList xs) = (xs \<noteq> [])"
| "py_truthy (JObj kvs) = (kvs \<noteq> [])"

definition Note_init :: "json \<Rightarrow> json \<Rightarrow> json \<Rightarrow> json \<Rightarrow> json \<Rightarrow> datetime \<Rightarrow> mnote" where
  "Note_init ttl cnt is_code tgs cat now =
     \<lparr>m_title = ttl, m_content = cnt, m_is_code = is_code,
      m_tags = (if py_truthy tgs then tgs else JList []), m_category = cat,
      m_created_date = now, m_modified_date = now\<rparr>"


definition dict_get :: "(string \<times> json) list \<Rightarrow> string \<Rightarrow> json \<Rightarrow> json" where
  "dict_get d k dflt = (case map_of d k of None \<Rightarrow> dflt | Some v \<Rightarrow> v)"

definition fromisoformat_arg :: "json \<Rightarrow> error + datetime" where
  "fromisoformat_arg v = (case v of JStr s \<Rightarrow> fromisoformat s | _ \<Rightarrow> Inl TypeError)"

text \<open>
  The clock is a sequence \<open>clk\<close> of readings: the \<open>t\<close>-th call of
  \<^verbatim>\<open>datetime.datetime.now()\<close> returns \<open>clk t\<close>. A function that reads the clock takes
  the number of readings so far and returns the new number. \<^verbatim>\<open>from_dict\<close> reads it
  three times: once in the constructor and once for each default of \<^verbatim>\<open>data.get\<close>,
  which Python evaluates whether or not the key is present.
\<close>

definition from_dict :: "(nat \<Rightarrow> datetime) \<Rightarrow> json \<Rightarrow> nat \<Rightarrow> (error + mnote) \<times> nat" where
  "from_dict clk data t =
     (case data of
        JObj d \<Rightarrow>
          (let note = Note_init (dict_get d ''title'' (JStr [])) (dict_get d ''content'' (JStr []))
                        (dict_get d ''is_code'' (JBool False)) (dict_get d ''tags'' (JList []))
                        (dict_get d ''category'' JNull) (clk t)
           in case fromisoformat_arg
                     (dict_get d ''created_date'' (JStr (isoformat (clk (t + 1))))) of
                Inl e \<Rightarrow> (Inl e, t + 2)
              | Inr c \<Rightarrow>
                  (case fromisoformat_arg
                          (dict_get d ''modified_date'' (JStr (isoformat (clk (t + 2))))) of
                     Inl e \<Rightarrow> (Inl e, t + 3)
                   | Inr m \<Rightarrow>
                       (Inr (note\<lparr>m_created_date := c, m_modified_date := m\<rparr>), t + 3)))
      | _ \<Rightarrow> (Inl AttributeError, t))"

fun from_dict_list :: "(nat \<Rightarrow> datetime) \<Rightarrow> json list \<Rightarrow> nat \<Rightarrow> (error + mnote list) \<times> nat" where
  "from_dict_list clk [] t = (Inr [], t)"
| "from_dict_list clk (d # ds) t =
     (case from_dict clk d t of
        (Inl e, t1) \<Rightarrow> (Inl e, t1)
      | (Inr n, t1) \<Rightarrow>
          (case from_dict_list clk ds t1 of
             (Inl e, t2) \<Rightarrow> (Inl e, t2)
           | (Inr ns, t2) \<Rightarrow> (Inr (n # ns), t2)))"

text \<open>Iterating over a value: a list gives its items, a string its characters, a dict
  its keys; anything else raises \<^verbatim>\<open>TypeError\<close>.\<close>

definition py_iter :: "json \<Rightarrow> error + json list" where
  "py_iter v =
     (case v of
        JList xs \<Rightarrow> Inr xs
      | JStr s \<Rightarrow> Inr (map (\<lambda>c. JStr [c]) s)
      | JObj kvs \<Rightarrow> Inr (map (\<lambda>(k, _). JStr k) kvs)
      | _ \<Rightarrow> Inl TypeError)"

subsection \<open>The main window and the notes file\<close>

text \<open>
  \<^verbatim>\<open>MainWindow\<close> owns the list \<^verbatim>\<open>self.notes\<close>; the list widget shows
  \<^verbatim>\<open>filtered_notes\<close>, a list of references to notes of \<^verbatim>\<open>self.notes\<close>, modelled as
  positions in it. The file \<^verbatim>\<open>notes.json\<close> is absent, unreadable as JSON, or holds a
  document; \<^verbatim>\<open>json.dump\<close> and \<^verbatim>\<open>json.load\<close> are taken to write and read a
  \<open>json\<close> value unchanged. The repainting of the widgets is not modelled.
\<close>

datatype disk_file = Corrupt | Document json

record main_window =
  mw_notes :: "mnote list"
  filtered_notes :: "nat list"
  current_note_index :: int
  sidebar_categories :: json
  sidebar_tags :: json
  notes_file :: "disk_file option"
  ticks :: nat

definition set_notes :: "main_window \<Rightarrow> main_window" where
  "set_notes w = w\<lparr>filtered_notes := [0..<length (mw_notes w)]\<rparr>"

definition welcome_content :: string where
  "welcome_content =
     ''<h1>Welcome to C0lorNote</h1><p>This is a modern note-taking application with '' @
     ''support for rich text and code snippets.</p><p>Features include:</p><ul>'' @
     ''<li>Rich text editing</li><li>Code editing with syntax highlighting</li>'' @
     ''<li>Multiple themes (try Matrix, Dreamcore, or Minimalist)</li>'' @
     ''<li>Organization with tags and categories</li>'' @
     ''<li>Smart views for recent notes and code snippets</li></ul>'' @
     ''<p>Get started by creating a new note!</p>''"

definition code_content :: string where
  "code_content =
     (let nl = [CHR 0x0A]; dq = [CHR 0x22] in
      ''# A simple Python hello world example'' @ nl @ nl @
      ''def greet(name):'' @ nl @
      ''    '' @ dq @ dq @ dq @ ''Return a greeting message'' @ dq @ dq @ dq @ nl @
      ''    return f'' @ dq @ ''Hello, {name}!'' @ dq @ nl @ nl @
      ''# Test the function'' @ nl @
      ''if __name__ == '' @ dq @ ''__main__'' @ dq @ '':'' @ nl @
      ''    print(greet('' @ dq @ ''World'' @ dq @ ''))'' @ nl @
      ''    # Press F5 to run this code!'')"

definition create_sample_notes :: "(nat \<Rightarrow> datetime) \<Rightarrow> main_window \<Rightarrow> main_window" where
  "create_sample_notes clk w =
     (let welcome_note =
            Note_init (JStr ''Welcome to C0lorNote!'') (JStr welcome_content) (JBool False)
              (JList [JStr ''welcome'', JStr ''tutorial'']) (JStr ''Getting Started'')
              (clk (ticks w));
          code_note =
            Note_init (JStr ''Python Hello World Example'') (JStr code_content) (JBool True)
              (JList [JStr ''python'', JStr ''example'']) (JStr ''Code Snippets'')
              (clk (ticks w + 1))
      in set_notes
           (w\<lparr>mw_notes := [welcome_note, code_note],
              sidebar_categories :=
                JList [JStr ''Getting Started'', JStr ''Code Snippets'', JStr ''Personal'',
                       JStr ''Work''],
              sidebar_tags :=
                JList [JStr ''welcome'', JStr ''tutorial'', JStr ''python'', JStr ''example'',
                       JStr ''important''],
              ticks := ticks w + 2\<rparr>))"

text \<open>
  \<^verbatim>\<open>load_notes\<close>: no file gives the sample notes; so does any exception raised while
  the file is read and its notes are rebuilt.
\<close>

definition load_notes :: "(nat \<Rightarrow> datetime) \<Rightarrow> main_window \<Rightarrow> main_window" where
  "load_notes clk w =
     (case notes_file w of
        None \<Rightarrow> create_sample_notes clk w
      | Some Corrupt \<Rightarrow> create_sample_notes clk w
      | Some (Document data) \<Rightarrow>
          (case data of
             JObj d \<Rightarrow>
               (case py_iter (dict_get d ''notes'' (JList [])) of
                  Inl e \<Rightarrow> create_sample_notes clk w
                | Inr ds \<Rightarrow>
                    (case from_dict_list clk ds (ticks w) of
                       (Inl e, t) \<Rightarrow> create_sample_notes clk (w\<lparr>ticks := t\<rparr>)
                     | (Inr ns, t) \<Rightarrow>
                         set_notes
                           (w\<lparr>mw_notes := ns,
                              sidebar_categories := dict_get d ''categories'' (JList []),
                              sidebar_tags := dict_get d ''tags'' (JList []),
                              ticks := t\<rparr>)))
           | _ \<Rightarrow> create_sample_notes clk w))"


text \<open>\<^verbatim>\<open>MainWindow.__init__\<close>: an empty window over the file found on disk, then
  \<^verbatim>\<open>load_notes\<close>.\<close>

definition MainWindow_init :: "(nat \<Rightarrow> datetime) \<Rightarrow> disk_file option \<Rightarrow> nat \<Rightarrow> main_window" where
  "MainWindow_init clk f t =
     load_notes clk
       \<lparr>mw_notes = [], filtered_notes = [], current_note_index = - 1,
        sidebar_categories = JList [], sidebar_tags = JList [], notes_file = f, ticks = t\<rparr>"











section \<open>Example data\<close>

definition ex_t0 :: datetime where
  "ex_t0 = \<lparr>dt_year = 2024, dt_month = 1, dt_day = 1, dt_hour = 10, dt_minute = 0,
            dt_second = 0, dt_microsecond = 0\<rparr>"

definition ex_t1 :: datetime where
  "ex_t1 = \<lparr>dt_year = 2024, dt_month = 1, dt_day = 2, dt_hour = 9, dt_minute = 30,
            dt_second = 15, dt_microsecond = 500000\<rparr>"


text \<open>Note A is unpinned and was modified at \<open>ex_t1\<close>; note B is pinned and was
  modified earlier, at \<open>ex_t0\<close>.\<close>

definition ex_note_a :: note_row where
  "ex_note_a = \<lparr>note_id = ''a'', title = Some ''Hello World'',
                content = Some ''<p>hello world again</p>'',
                plain_content = Some ''hello world again'', created_date = ex_t0,
                modified_date = ex_t1, color = None, is_pinned = False, category_id = None\<rparr>"

definition ex_note_b :: note_row where
  "ex_note_b = \<lparr>note_id = ''b'', title = Some ''abc'', content = Some ''<p>Only HELLO</p>'',
                plain_content = Some ''Only HELLO'', created_date = ex_t0,
                modified_date = ex_t0, color = Some ''#ffcc00'', is_pinned = True,
                category_id = Some ''c1''\<rparr>"


definition ex_db :: database where
  "ex_db = \<lparr>notes_tbl = [ex_note_a, ex_note_b],
            tags_tbl = [\<lparr>tag_id = ''t1'', tag_name = ''work'', tag_color = None,
                         tag_created_date = ex_t0\<rparr>,
                        \<lparr>tag_id = ''t2'', tag_name = ''idle'', tag_color = None,
                         tag_created_date = ex_t0\<rparr>],
            categories_tbl = [\<lparr>cat_id = ''c1'', cat_name = ''Inbox'', cat_color = None,
                               cat_created_date = ex_t0\<rparr>],
            note_tag_tbl = [(''a'', ''t1''), (''b'', ''t1'')]\<rparr>"


definition ex_clk :: "nat \<Rightarrow> datetime" where
  "ex_clk k = ex_t0\<lparr>dt_microsecond := min k 999999\<rparr>"

definition ex_window :: main_window where
  "ex_window = MainWindow_init ex_clk None 0"



section \<open>Properties of the ordering\<close>

lemma precedes_total: "precedes a b \<or> precedes b a"
  unfolding precedes_def dt_le_def by (cases "is_pinned a"; cases "is_pinned b") auto

lemma precedes_trans: "precedes a b \<Longrightarrow> precedes b c \<Longrightarrow> precedes a c"
  unfolding precedes_def dt_le_def by (cases "is_pinned a"; cases "is_pinned b"; cases "is_pinned c") auto

lemma set_insert_row: "set (insert_row x ys) = insert x (set ys)"
  by (induction ys) auto

lemma mset_insert_row: "mset (insert_row x ys) = add_mset x (mset ys)"
  by (induction ys) auto

lemma sorted_insert_row:
  "sorted_wrt precedes ys \<Longrightarrow> sorted_wrt precedes (insert_row x ys)"
proof (induction ys)
  case Nil
  then show ?case by simp
next
  case (Cons y ys)
  show ?case
  proof (cases "precedes x y")
    case True
    with Cons.prems show ?thesis
      by (auto intro: precedes_trans)
  next
    case False
    then have "precedes y x" using precedes_total by blast
    with False Cons show ?thesis
      by (auto simp: set_insert_row)
  qed
qed

lemma mset_order_by: "mset (order_by_pinned_modified xs) = mset xs"
  unfolding order_by_pinned_modified_def by (induction xs) (simp_all add: mset_insert_row)

lemma sorted_order_by: "sorted_wrt precedes (order_by_pinned_modified xs)"
  unfolding order_by_pinned_modified_def by (induction xs) (simp_all add: sorted_insert_row)

lemma sorted_precedes_nth:
  assumes "sorted_wrt precedes rs" "i < j" "j < length rs"
  shows "(is_pinned (rs ! j) \<longrightarrow> is_pinned (rs ! i)) \<and>
         (is_pinned (rs ! i) = is_pinned (rs ! j) \<longrightarrow>
            dt_le (modified_date (rs ! j)) (modified_date (rs ! i)))"
proof -
  from assms have "precedes (rs ! i) (rs ! j)"
    by (simp add: sorted_wrt_iff_nth_less)
  then show ?thesis
    unfolding precedes_def by auto
qed

text \<open>
  C1. \<^verbatim>\<open>get_all\<close> returns every note of the table, each as often as it is stored, in
  an order where, of any two result positions, a pinned note is never behind an unpinned
  one and, among notes with the same flag, the earlier position holds a modification
  time that is not older. So a pinned note stands before an unpinned one whatever their
  modification times are.
\<close>

theorem get_all_pinned_first_then_recent:
  "mset (get_all db) = mset (notes_tbl db) \<and>
   (\<forall>i j. i < j \<longrightarrow> j < length (get_all db) \<longrightarrow>
      (is_pinned (get_all db ! j) \<longrightarrow> is_pinned (get_all db ! i)) \<and>
      (is_pinned (get_all db ! i) = is_pinned (get_all db ! j) \<longrightarrow>
         dt_le (modified_date (get_all db ! j)) (modified_date (get_all db ! i))))"
  unfolding get_all_def
  using sorted_precedes_nth [OF sorted_order_by] by (simp add: mset_order_by)

lemma ex_get_all: "get_all ex_db = [ex_note_b, ex_note_a]"
  by (simp add: get_all_def order_by_pinned_modified_def ex_db_def precedes_def
      ex_note_a_def ex_note_b_def)

theorem get_all_pinned_first_then_recent_witness:
  "(0::nat) < 1 \<and> 1 < length (get_all ex_db) \<and>
   get_all ex_db ! 0 = ex_note_b \<and> get_all ex_db ! 1 = ex_note_a \<and>
   is_pinned (get_all ex_db ! 0) \<and> \<not> is_pinned (get_all ex_db ! 1) \<and>
   \<not> dt_le (modified_date (get_all ex_db ! 1)) (modified_date (get_all ex_db ! 0)) \<and>
   mset (get_all ex_db) = mset (notes_tbl ex_db)"
  using get_all_pinned_first_then_recent [of ex_db]
  by (simp add: ex_get_all ex_note_a_def ex_note_b_def ex_t0_def ex_t1_def dt_le_def dt_key_def)

section \<open>Properties of the search\<close>

text \<open>
  C7. With an empty text and no category, tag or pinned filter, \<^verbatim>\<open>search\<close> returns
  the same notes in the same order as \<^verbatim>\<open>get_all\<close>; an empty list of tag ids is no
  filter either.
\<close>

theorem search_empty_is_get_all:
  "search db [] None None False = get_all db \<and> search db [] None (Some []) False = get_all db"
  by (simp add: search_def get_all_def)

lemma occurs_in_iff: "occurs_in w s \<longleftrightarrow> (\<exists>p q. s = p @ w @ q)"
proof (induction s)
  case Nil
  then show ?case by auto
next
  case (Cons c cs)
  have pre: "take (length w) (c # cs) = w \<longleftrightarrow> (\<exists>q. c # cs = w @ q)"
    by (metis append_eq_conv_conj)
  show ?case
  proof
    assume "occurs_in w (c # cs)"
    then consider "take (length w) (c # cs) = w" | "occurs_in w cs" by auto
    then show "\<exists>p q. c # cs = p @ w @ q"
    proof cases
      case 1
      with pre obtain q where "c # cs = w @ q" by blast
      then have "c # cs = [] @ w @ q" by simp
      then show ?thesis by blast
    next
      case 2
      with Cons.IH obtain p q where "cs = p @ w @ q" by blast
      then have "c # cs = (c # p) @ w @ q" by simp
      then show ?thesis by blast
    qed
  next
    assume "\<exists>p q. c # cs = p @ w @ q"
    then obtain p q where pq: "c # cs = p @ w @ q" by blast
    show "occurs_in w (c # cs)"
    proof (cases p)
      case Nil
      with pq have "c # cs = w @ q" by simp
      with pre have "take (length w) (c # cs) = w" by blast
      then show ?thesis by simp
    next
      case (Cons a p')
      with pq have "cs = p' @ w @ q" by simp
      with Cons.IH show ?thesis by auto
    qed
  qed
qed

lemma like_percent: "like ''%'' s"
  by (induction s) auto

lemma like_prefix:
  "wildcard_free w \<Longrightarrow> like (w @ ''%'') s \<longleftrightarrow> take (length w) s = w"
proof (induction w arbitrary: s)
  case Nil
  then show ?case by (simp add: like_percent)
next
  case (Cons a w)
  then have a: "a \<noteq> CHR ''%''" "a \<noteq> CHR ''_''" and w: "wildcard_free w"
    by (auto simp: wildcard_free_def)
  show ?case
  proof (cases s)
    case Nil
    with a show ?thesis by simp
  next
    case (Cons c cs)
    with a Cons.IH [OF w, of cs] show ?thesis by auto
  qed
qed

lemma like_contains:
  "wildcard_free w \<Longrightarrow> like (''%'' @ w @ ''%'') s \<longleftrightarrow> occurs_in w s"
proof (induction s)
  case Nil
  then show ?case using like_prefix [of w "[]"] by auto
next
  case (Cons c cs)
  then show ?case using like_prefix [of w "c # cs"] by auto
qed

lemma of_char_lower_char:
  "(of_char (lower_char c) :: nat) =
     (if 65 \<le> (of_char c :: nat) \<and> (of_char c :: nat) \<le> 90 then of_char c + 32 else of_char c)"
  by (simp add: lower_char_def)


lemma of_char_not_wild:
  "c \<noteq> CHR ''%'' \<Longrightarrow> (of_char c :: nat) \<noteq> 37"
  "c \<noteq> CHR ''_'' \<Longrightarrow> (of_char c :: nat) \<noteq> 95"
proof -
  have "(of_char c :: nat) = 37 \<Longrightarrow> c = CHR ''%''"
    using of_char_eq_iff [of c "CHR ''%''", where ?'a = nat] by simp
  then show "c \<noteq> CHR ''%'' \<Longrightarrow> (of_char c :: nat) \<noteq> 37" by blast
  have "(of_char c :: nat) = 95 \<Longrightarrow> c = CHR ''_''"
    using of_char_eq_iff [of c "CHR ''_''", where ?'a = nat] by simp
  then show "c \<noteq> CHR ''_'' \<Longrightarrow> (of_char c :: nat) \<noteq> 95" by blast
qed

lemma lower_char_not_wild:
  assumes "c \<noteq> CHR ''%''" "c \<noteq> CHR ''_''"
  shows "lower_char c \<noteq> CHR ''%'' \<and> lower_char c \<noteq> CHR ''_''"
proof -
  have "(of_char (lower_char c) :: nat) \<noteq> 37 \<and> (of_char (lower_char c) :: nat) \<noteq> 95"
    using of_char_not_wild(1) [OF assms(1)] of_char_not_wild(2) [OF assms(2)]
    by (simp add: of_char_lower_char)
  then show ?thesis by auto
qed

lemma wildcard_free_lower: "wildcard_free w \<Longrightarrow> wildcard_free (lower w)"
proof (induction w)
  case Nil
  then show ?case by (simp add: wildcard_free_def lower_def)
next
  case (Cons c w)
  then have c: "c \<noteq> CHR ''%''" "c \<noteq> CHR ''_''" and w: "wildcard_free (lower w)"
    by (auto simp: wildcard_free_def)
  from lower_char_not_wild [OF c]
  have "CHR ''%'' \<noteq> lower_char c \<and> CHR ''_'' \<noteq> lower_char c"
    by metis
  with w show ?case
    by (simp add: wildcard_free_def lower_def)
qed

lemma ilike_contains:
  assumes "wildcard_free w"
  shows "ilike col (''%'' @ w @ ''%'') \<longleftrightarrow>
           (case col of None \<Rightarrow> False | Some s \<Rightarrow> occurs_in (lower w) (lower s))"
proof -
  have "lower_char CHR ''%'' = CHR ''%''"
    by (simp add: lower_char_def)
  then have "lower (''%'' @ w @ ''%'') = ''%'' @ lower w @ ''%''"
    by (simp add: lower_def)
  then show ?thesis
    using like_contains [OF wildcard_free_lower [OF assms]]
    by (simp add: ilike_def split: option.splits)
qed


lemma matches_text_wildcard_free:
  assumes "list_all wildcard_free (str_split q)"
  shows "matches_text q n \<longleftrightarrow> list_all (\<lambda>w. word_in_note w n) (str_split q)"
proof -
  have "(ilike (title n) (''%'' @ w @ ''%'') \<or> ilike (plain_content n) (''%'' @ w @ ''%''))
          \<longleftrightarrow> word_in_note w n" if "wildcard_free w" for w
    using ilike_contains [OF that] by (simp add: word_in_note_def)
  with assms show ?thesis
    unfolding matches_text_def search_terms_def list_all_iff by auto
qed

lemma fold_filter:
  "fold (\<lambda>t q. filter (P t) q) ts xs = filter (\<lambda>n. list_all (\<lambda>t. P t n) ts) xs"
proof (induction ts arbitrary: xs)
  case Nil
  then show ?case by simp
next
  case (Cons t ts)
  have "filter (\<lambda>n. list_all (\<lambda>t. P t n) ts) (filter (P t) xs) =
        filter (\<lambda>n. P t n \<and> list_all (\<lambda>t. P t n) ts) xs"
    by (simp add: conj_commute)
  with Cons show ?case by simp
qed

lemma search_wildcard_free:
  assumes "list_all wildcard_free (str_split q)"
  shows "search db q cid tids p =
           order_by_pinned_modified (filter (spec_matches db q cid tids p) (notes_tbl db))"
proof -
  have empty: "str_split [] = []"
    by (simp add: str_split_def)
  have q1: "(if q \<noteq> [] then filter (matches_text q) xs else xs) =
            filter (\<lambda>n. list_all (\<lambda>w. word_in_note w n) (str_split q)) xs" for xs
  proof (cases "q = []")
    case True
    with empty show ?thesis by simp
  next
    case False
    have "matches_text q = (\<lambda>n. list_all (\<lambda>w. word_in_note w n) (str_split q))"
      using matches_text_wildcard_free [OF assms] by (intro ext) simp
    with False show ?thesis by simp
  qed
  have q2: "(case cid of None \<Rightarrow> xs
             | Some c \<Rightarrow> if c \<noteq> [] then filter (\<lambda>n. category_id n = Some c) xs else xs) =
            filter (\<lambda>n. case cid of None \<Rightarrow> True | Some c \<Rightarrow> c = [] \<or> category_id n = Some c) xs" for xs
    by (cases cid) auto
  have q3: "(case tids of None \<Rightarrow> xs | Some ts \<Rightarrow> fold (\<lambda>tid q. filter (has_tag db tid) q) ts xs) =
            filter (\<lambda>n. case tids of None \<Rightarrow> True | Some ts \<Rightarrow> list_all (\<lambda>t. has_tag db t n) ts) xs" for xs
    by (cases tids) (simp_all add: fold_filter)
  have q4: "(if p then filter is_pinned xs else xs) =
            filter (\<lambda>n. if p then is_pinned n else True) xs" for xs
    by simp
  show ?thesis
    unfolding search_def Let_def q1 q2 q3 q4 spec_matches_def
    by (simp add: conj_commute conj_left_commute)
qed

lemma ex_not: "\<not> word_in_note ''a_c'' ex_note_b"
  by code_simp


lemma ex_lower:
  "lower ''%a_c%'' = ''%a_c%''" "lower ''abc'' = ''abc''" "lower ''Only HELLO'' = ''only hello''"
  "lower ''Hello World'' = ''hello world''" "lower ''hello world again'' = ''hello world again''"
  by code_simp+

lemma ex_split: "str_split ''a_c'' = [''a_c'']"
  by (simp add: str_split_def is_space_def)

lemma ex_terms: "search_terms ''a_c'' = [''%a_c%'']"
  by (simp add: search_terms_def str_split_def is_space_def)

lemma ex_match_b: "matches_text ''a_c'' ex_note_b"
  by (simp add: matches_text_def ex_terms ilike_def ex_lower ex_note_b_def)

lemma ex_match_a: "\<not> matches_text ''a_c'' ex_note_a"
  by (simp add: matches_text_def ex_terms ilike_def ex_lower ex_note_a_def)

lemma ex_search: "search ex_db ''a_c'' None None False = [ex_note_b]"
proof -
  have "notes_tbl ex_db = [ex_note_a, ex_note_b]"
    by (simp add: ex_db_def)
  then show ?thesis
    by (simp add: search_def ex_match_a ex_match_b order_by_pinned_modified_def)
qed


text \<open>
  C2 fails on the code for a word that contains \<^verbatim>\<open>_\<close> or \<^verbatim>\<open>%\<close>: the word is
  pasted into the LIKE pattern as it is and acts as a wildcard. The search for
  \<^verbatim>\<open>a_c\<close> returns note B, titled \<^verbatim>\<open>abc\<close>, in which \<^verbatim>\<open>a_c\<close> does not occur.
  (For words without these two characters \<open>search_wildcard_free\<close> above shows that
  the query returns exactly the notes the specification asks for, in the order of
  \<^verbatim>\<open>get_all\<close>.)
\<close>

theorem search_wildcard_word_matches_non_substring:
  "search ex_db ''a_c'' None None False = [ex_note_b] \<and> \<not> word_in_note ''a_c'' ex_note_b"
  using ex_search ex_not by simp

section \<open>Properties of the mutations\<close>















section \<open>Properties of the file-backed store\<close>

text \<open>
  C9. When the notes file does not exist, \<^verbatim>\<open>load_notes\<close> leaves exactly the two
  sample notes in the store: the first is a rich-text note, the second a code note.
\<close>

theorem load_notes_first_run:
  "mw_notes (load_notes clk (w\<lparr>notes_file := None\<rparr>)) =
     [Note_init (JStr ''Welcome to C0lorNote!'') (JStr welcome_content) (JBool False)
        (JList [JStr ''welcome'', JStr ''tutorial'']) (JStr ''Getting Started'') (clk (ticks w)),
      Note_init (JStr ''Python Hello World Example'') (JStr code_content) (JBool True)
        (JList [JStr ''python'', JStr ''example'']) (JStr ''Code Snippets'')
        (clk (ticks w + 1))] \<and>
   length (mw_notes (load_notes clk (w\<lparr>notes_file := None\<rparr>))) = 2 \<and>
   length (filter (\<lambda>n. py_truthy (m_is_code n))
             (mw_notes (load_notes clk (w\<lparr>notes_file := None\<rparr>)))) = 1 \<and>
   length (filter (\<lambda>n. \<not> py_truthy (m_is_code n))
             (mw_notes (load_notes clk (w\<lparr>notes_file := None\<rparr>)))) = 1 \<and>
   length (mw_notes (MainWindow_init clk None t)) = 2"
  by (simp add: load_notes_def create_sample_notes_def set_notes_def Note_init_def
      MainWindow_init_def Let_def)

section \<open>Properties of the textual timestamps and of the notes file\<close>

lemma length_pad [simp]: "length (pad w k) = w"
  by (induction w arbitrary: k) auto











lemma mnote_eqI:
  "m_title a = m_title b \<Longrightarrow> m_content a = m_content b \<Longrightarrow> m_is_code a = m_is_code b \<Longrightarrow>
   m_tags a = m_tags b \<Longrightarrow> m_category a = m_category b \<Longrightarrow>
   m_created_date a = m_created_date b \<Longrightarrow> m_modified_date a = m_modified_date b \<Longrightarrow>
   a = (b :: mnote)"
  by (cases a; cases b) simp























subsection \<open>The example window\<close>














lemma ex_selected_index:
  "current_note_index (ex_window\<lparr>filtered_notes := [0, 1], current_note_index := 1\<rparr>) = 1"
  "filtered_notes (ex_window\<lparr>filtered_notes := [0, 1], current_note_index := 1\<rparr>) = [0, 1]"
  by simp_all





section \<open>Properties of the aggregates\<close>

lemma map_of_tabulate: "map_of (map (\<lambda>k. (k, f k)) ks) k = (if k \<in> set ks then Some (f k) else None)"
  by (induction ks) auto

lemma dict_of_group_count:
  "dict_of (group_count ks) k = (if k \<in> set ks then Some (count_list ks k) else None)"
proof -
  have "rev (group_count ks) = map (\<lambda>k. (k, count_list ks k)) (rev (remdups ks))"
    by (simp add: group_count_def rev_map)
  then show ?thesis
    by (simp add: dict_of_def map_of_tabulate)
qed

lemma count_list_concat: "count_list (concat xss) k = sum_list (map (\<lambda>xs. count_list xs k) xss)"
  by (induction xss) auto

lemma count_list_const: "count_list (map (\<lambda>_. a) xs) k = (if a = k then length xs else 0)"
  by (induction xs) auto

lemma count_list_map_filter: "count_list (map f xs) y = length (filter (\<lambda>x. f x = y) xs)"
  by (induction xs) auto

lemma sum_list_single_id:
  "distinct (map tag_id ts) \<Longrightarrow>
   sum_list (map (\<lambda>t. if tag_id t = g then c else 0) ts) = (if g \<in> tag_id ` set ts then c else (0::nat))"
  by (induction ts) auto

lemma count_tag_join:
  assumes "distinct (map tag_id (tags_tbl db))"
  shows "count_list (tag_join db) g =
           (if g \<in> tag_id ` set (tags_tbl db)
            then length (filter (\<lambda>(nid, tg). tg = g) (note_tag_tbl db)) else 0)"
proof -
  have "count_list (tag_join db) g =
        sum_list (map (\<lambda>t. if tag_id t = g then length (filter (\<lambda>(nid, tg). tg = g) (note_tag_tbl db)) else 0) (tags_tbl db))"
    unfolding tag_join_def count_list_concat map_map comp_def count_list_const
    by (rule arg_cong [where f = sum_list]) (auto intro!: map_cong)
  then show ?thesis using sum_list_single_id [OF assms] by simp
qed


lemma assoc_rows_count:
  assumes "schema_ok db"
  shows "length (filter (\<lambda>(nid, tg). tg = g) (note_tag_tbl db)) = length (notes_with_tag db g)"
proof -
  let ?NT = "set (note_tag_tbl db)"
  let ?A = "{p. case p of (nid, tg) \<Rightarrow> tg = g} \<inter> ?NT"
  let ?B = "{r. (note_id r, g) \<in> ?NT} \<inter> set (notes_tbl db)"
  from assms have ids: "distinct (map note_id (notes_tbl db))" and nt: "distinct (note_tag_tbl db)"
    and fk: "\<And>nid tg. (nid, tg) \<in> ?NT \<Longrightarrow> nid \<in> note_id ` set (notes_tbl db)"
    by (auto simp: schema_ok_def list_all_iff)
  from ids have inj: "inj_on note_id (set (notes_tbl db))" and rows: "distinct (notes_tbl db)"
    by (auto simp: distinct_map)
  have "inj_on (\<lambda>r. (note_id r, g)) ?B"
    using inj by (auto simp: inj_on_def)
  moreover have "(\<lambda>r. (note_id r, g)) ` ?B = ?A"
    using fk by (auto simp: image_iff)
  ultimately have "card ?A = card ?B"
    using card_image by metis
  moreover have "length (filter (\<lambda>(nid, tg). tg = g) (note_tag_tbl db)) = card ?A"
    using nt by (simp add: distinct_length_filter)
  moreover have "length (notes_with_tag db g) = card ?B"
    using rows by (simp add: notes_with_tag_def distinct_length_filter)
  ultimately show ?thesis by simp
qed

lemma count_by_tag_value:
  assumes "schema_ok db"
  shows "count_by_tag db g =
           (if notes_with_tag db g = [] then None else Some (length (notes_with_tag db g)))"
proof -
  from assms have tagids: "distinct (map tag_id (tags_tbl db))"
    and fk: "\<And>nid tg. (nid, tg) \<in> set (note_tag_tbl db) \<Longrightarrow> tg \<in> tag_id ` set (tags_tbl db)"
    by (auto simp: schema_ok_def list_all_iff)
  have "g \<notin> tag_id ` set (tags_tbl db) \<Longrightarrow> filter (\<lambda>(nid, tg). tg = g) (note_tag_tbl db) = []"
    using fk by (auto simp: filter_empty_conv)
  then have cnt: "count_list (tag_join db) g = length (notes_with_tag db g)"
    using count_tag_join [OF tagids, of g] assoc_rows_count [OF assms, of g]
    by (auto split: if_splits)
  have "count_by_tag db g =
          (if count_list (tag_join db) g = 0 then None else Some (count_list (tag_join db) g))"
    by (simp add: count_by_tag_def dict_of_group_count count_list_0_iff)
  with cnt show ?thesis by simp
qed


lemma category_rows:
  "map (\<lambda>(c, k). (category_key c, k)) (group_count ks) =
   map (\<lambda>c. (category_key c, count_list ks c)) (remdups ks)"
  by (simp add: group_count_def comp_def)

lemma sentinel_present:
  assumes "uncategorized_notes db \<noteq> []"
  shows "''uncategorized'' \<in> dom (count_by_category db)"
proof -
  from assms obtain n where "n \<in> set (notes_tbl db)" "category_id n = None"
    by (auto simp: uncategorized_notes_def filter_empty_conv)
  then have "None \<in> set (map category_id (notes_tbl db))"
    by force
  then have "(''uncategorized'', count_list (map category_id (notes_tbl db)) None)
             \<in> set (rev (map (\<lambda>c. (category_key c, count_list (map category_id (notes_tbl db)) c))
                              (remdups (map category_id (notes_tbl db)))))"
    by (force simp: category_key_def)
  then show ?thesis
    unfolding count_by_category_def dict_of_def category_rows dom_map_of_conv_image_fst
    by force
qed

lemma sentinel_count:
  assumes "\<forall>n \<in> set (notes_tbl db). category_id n \<noteq> Some [] \<and> category_id n \<noteq> Some ''uncategorized''"
  shows "count_by_category db ''uncategorized'' =
           (if uncategorized_notes db = [] then None else Some (length (uncategorized_notes db)))"
proof -
  let ?ks = "map category_id (notes_tbl db)"
  let ?R = "map (\<lambda>c. (category_key c, count_list ?ks c)) (remdups ?ks)"
  have cnt: "count_list ?ks None = length (uncategorized_notes db)"
    by (simp add: count_list_map_filter uncategorized_notes_def)
  have keys: "c \<in> set ?ks \<Longrightarrow> category_key c = ''uncategorized'' \<longleftrightarrow> c = None" for c
    using assms by (cases c) (auto simp: category_key_def)
  have "inj_on category_key (set ?ks)"
  proof (rule inj_onI)
    fix x y assume "x \<in> set ?ks" "y \<in> set ?ks" "category_key x = category_key y"
    with assms keys show "x = y"
      by (cases x; cases y) (auto simp: category_key_def split: if_splits)
  qed
  then have dist: "distinct (map fst (rev ?R))"
    by (simp add: distinct_map comp_def rev_map [symmetric] del: set_map)
  show ?thesis
  proof (cases "None \<in> set ?ks")
    case True
    then have "(''uncategorized'', count_list ?ks None) \<in> set (rev ?R)"
      by (force simp: category_key_def)
    with dist have "map_of (rev ?R) ''uncategorized'' = Some (count_list ?ks None)"
      by (rule map_of_is_SomeI)
    moreover from True obtain n where "n \<in> set (notes_tbl db)" "category_id n = None"
      by force
    then have "uncategorized_notes db \<noteq> []"
      by (auto simp: uncategorized_notes_def filter_empty_conv)
    ultimately show ?thesis
      by (simp add: count_by_category_def dict_of_def category_rows cnt)
  next
    case False
    then have "''uncategorized'' \<notin> fst ` set (rev ?R)"
      using keys by force
    then have "map_of (rev ?R) ''uncategorized'' = None"
      by (simp add: map_of_eq_None_iff)
    moreover from False have "\<forall>n \<in> set (notes_tbl db). category_id n \<noteq> None"
      by (metis imageI set_map)
    then have "uncategorized_notes db = []"
      by (simp add: uncategorized_notes_def filter_empty_conv)
    ultimately show ?thesis
      by (simp add: count_by_category_def dict_of_def category_rows)
  qed
qed

text \<open>
  C10. In a database that satisfies the constraints of the schema, \<^verbatim>\<open>count_by_tag\<close>
  has an entry for a tag id exactly when some note references the tag, and the entry is
  the number of referencing notes; a tag that no note references has no entry (it is not
  mapped to 0). \<^verbatim>\<open>count_by_category\<close> on the other hand has the key
  \<^verbatim>\<open>uncategorized\<close> whenever some note has no category, and, unless a stored category
  id is the empty string or that very word, its entry is the number of such notes.
\<close>

theorem count_by_tag_only_referenced:
  "(schema_ok db \<longrightarrow>
      count_by_tag db g =
        (if notes_with_tag db g = [] then None else Some (length (notes_with_tag db g)))) \<and>
   (uncategorized_notes db \<noteq> [] \<longrightarrow> ''uncategorized'' \<in> dom (count_by_category db)) \<and>
   ((\<forall>n \<in> set (notes_tbl db).
        category_id n \<noteq> Some [] \<and> category_id n \<noteq> Some ''uncategorized'') \<longrightarrow>
      count_by_category db ''uncategorized'' =
        (if uncategorized_notes db = [] then None else Some (length (uncategorized_notes db))))"
  using count_by_tag_value sentinel_present sentinel_count by blast

lemma ex_schema_ok: "schema_ok ex_db"
  by (simp add: schema_ok_def ex_db_def ex_note_a_def ex_note_b_def)

lemma ex_notes_with_tag:
  "notes_with_tag ex_db ''t1'' = [ex_note_a, ex_note_b]" "notes_with_tag ex_db ''t2'' = []"
  by (simp_all add: notes_with_tag_def ex_db_def ex_note_a_def ex_note_b_def)

lemma ex_uncategorized: "uncategorized_notes ex_db = [ex_note_a]"
  by (simp add: uncategorized_notes_def ex_db_def ex_note_a_def ex_note_b_def)

lemma ex_no_clash:
  "\<forall>n \<in> set (notes_tbl ex_db). category_id n \<noteq> Some [] \<and> category_id n \<noteq> Some ''uncategorized''"
  by (simp add: ex_db_def ex_note_a_def ex_note_b_def)

theorem count_by_tag_only_referenced_witness:
  "schema_ok ex_db \<and> uncategorized_notes ex_db \<noteq> [] \<and>
   list_all (\<lambda>n. category_id n \<noteq> Some [] \<and> category_id n \<noteq> Some ''uncategorized'')
     (notes_tbl ex_db) \<and>
   count_by_tag ex_db ''t1'' = Some 2 \<and> count_by_tag ex_db ''t2'' = None \<and>
   ''uncategorized'' \<in> dom (count_by_category ex_db) \<and>
   count_by_category ex_db ''uncategorized'' = Some 1"
proof -
  have u: "uncategorized_notes ex_db \<noteq> []"
    by (simp add: ex_uncategorized)
  from count_by_tag_only_referenced [of ex_db "''t1''"] ex_schema_ok ex_no_clash u
  have "count_by_tag ex_db ''t1'' = Some 2" "''uncategorized'' \<in> dom (count_by_category ex_db)"
    "count_by_category ex_db ''uncategorized'' = Some 1"
    by (simp_all add: ex_notes_with_tag ex_uncategorized)
  moreover from count_by_tag_only_referenced [of ex_db "''t2''"] ex_schema_ok
  have "count_by_tag ex_db ''t2'' = None"
    by (simp add: ex_notes_with_tag)
  ultimately show ?thesis
    using ex_schema_ok ex_no_clash u by (simp add: list_all_iff)
qed

end
